theory Spec2Isabelle
  imports Complex_Main "HOL-Library.Char_ord" "HOL-Library.List_Lexorder"
begin

section \<open>AcneSense (jerawat.py): recommendation lookup, classification, progress journal\<close>

text \<open>
  Python strings are modelled as \<^typ>\<open>string\<close>; the labels, table keys and dates of the
  application are ASCII. A Python exception is a value of \<open>py_error\<close>.
\<close>

datatype py_error = IndexError | ValueError | OSError

subsection \<open>Skin-type mapping\<close>

text \<open>
  The dictionary \<open>SKIN_TYPE_MAP_TO_CSV\<close>, in the order of the source literal (the keys are
  distinct, so the association list and the dictionary agree).
\<close>

definition SKIN_TYPE_MAP_TO_CSV :: "(string \<times> string) list" where
  "SKIN_TYPE_MAP_TO_CSV =
     [(''Normal'', ''semua''),
      (''Berminyak'', ''oily''),
      (''Kering'', ''semua''),
      (''Kombinasi'', ''semua''),
      (''Sensitive'', ''semua''),
      (''Tidak Tahu / Lewati'', ''semua'')]"

text \<open>The options of the skin-type select box, in the order of the source.\<close>

definition skin_type_options :: "string list" where
  "skin_type_options =
     [''Tidak Tahu / Lewati'', ''Normal'', ''Berminyak'', ''Kering'', ''Kombinasi'', ''Sensitive'']"

text \<open>\<open>d.get(k, default)\<close> of a Python dictionary.\<close>

definition dict_get :: "('k \<times> 'v) list \<Rightarrow> 'k \<Rightarrow> 'v \<Rightarrow> 'v" where
  "dict_get d k dflt = (case map_of d k of Some v \<Rightarrow> v | None \<Rightarrow> dflt)"

text \<open>\<open>user_skin_type_csv = SKIN_TYPE_MAP_TO_CSV.get(skin_type, "semua")\<close>\<close>

definition user_skin_type_csv :: "string \<Rightarrow> string" where
  "user_skin_type_csv skin_type = dict_get SKIN_TYPE_MAP_TO_CSV skin_type ''semua''"

subsection \<open>Recommendation table and lookup\<close>

text \<open>
  A row of \<open>df_pengobatan\<close> with its four required columns. The first two are strings after
  loading (\<open>astype(str)\<close>); the last two may be missing (NaN), which is \<open>None\<close>.
  The data frame is the list of its rows in file order.
\<close>

record recommendation_row =
  tingkat :: string
  jenis_kulit :: string
  kandungan :: "string option"
  rekomendasi :: "string option"

text \<open>\<open>df[df[col] == v]\<close>: the rows that satisfy the condition, in their order.\<close>

definition filtered_by_acne :: "recommendation_row list \<Rightarrow> string \<Rightarrow> recommendation_row list" where
  "filtered_by_acne df_pengobatan acne_class_for_csv =
     filter (\<lambda>r. tingkat r = acne_class_for_csv) df_pengobatan"

definition filtered_by_skin :: "recommendation_row list \<Rightarrow> string \<Rightarrow> recommendation_row list" where
  "filtered_by_skin rows key = filter (\<lambda>r. jenis_kulit r = key) rows"

text \<open>
  The selection of \<open>recom_row\<close>: \<open>None\<close> is the value the source variable keeps when neither
  filter finds a row (the "not yet available" branch of the page).
\<close>

definition recom_row ::
  "recommendation_row list \<Rightarrow> string \<Rightarrow> string \<Rightarrow> recommendation_row option" where
  "recom_row df_pengobatan acne_class_for_csv skin_key =
     (let by_acne = filtered_by_acne df_pengobatan acne_class_for_csv;
          specific_skin_recom = filtered_by_skin by_acne skin_key
      in case specific_skin_recom of
           r # _ \<Rightarrow> Some r
         | [] \<Rightarrow>
             (let general_skin_recom = filtered_by_skin by_acne ''semua''
              in case general_skin_recom of
                   r # _ \<Rightarrow> Some r
                 | [] \<Rightarrow> None))"

text \<open>The lookup as the page runs it, from the user's selection.\<close>

definition resolve :: "recommendation_row list \<Rightarrow> string \<Rightarrow> string \<Rightarrow> recommendation_row option" where
  "resolve df_pengobatan acne_class_for_csv skin_type =
     recom_row df_pengobatan acne_class_for_csv (user_skin_type_csv skin_type)"

text \<open>Row \<open>r\<close> is for acne type \<open>a\<close> and skin-type key \<open>k\<close>.\<close>

definition row_matches :: "string \<Rightarrow> string \<Rightarrow> recommendation_row \<Rightarrow> bool" where
  "row_matches a k r \<longleftrightarrow> tingkat r = a \<and> jenis_kulit r = k"

text \<open>Index \<open>i\<close> is the first position of \<open>xs\<close> whose element satisfies \<open>P\<close>.\<close>

definition first_at :: "('a \<Rightarrow> bool) \<Rightarrow> 'a list \<Rightarrow> nat \<Rightarrow> bool" where
  "first_at P xs i \<longleftrightarrow> i < length xs \<and> P (xs ! i) \<and> (\<forall>j<i. \<not> P (xs ! j))"

text \<open>The table of the specification's concrete scenario, with a row for a third acne type.\<close>

definition scenario_table :: "recommendation_row list" where
  "scenario_table =
     [\<lparr>tingkat = ''papule'', jenis_kulit = ''semua'',
       kandungan = Some ''benzoyl peroxide'', rekomendasi = Some ''avoid touching''\<rparr>,
      \<lparr>tingkat = ''papule'', jenis_kulit = ''oily'',
       kandungan = Some ''salicylic acid'', rekomendasi = Some ''oil-free moisturizer''\<rparr>,
      \<lparr>tingkat = ''pustule'', jenis_kulit = ''semua'',
       kandungan = Some ''sulfur'', rekomendasi = None\<rparr>]"

subsection \<open>Classification: arg-max, label and confidence\<close>

text \<open>
  \<open>np.argmax\<close> over the scores of the single image of the batch (the array has shape
  \<open>(1, N)\<close>, so the flat index is the column). The scan keeps the running maximum and
  replaces it only by a strictly greater score, so the first maximal position is returned;
  on an empty array numpy raises \<open>ValueError\<close>. Scores are taken from a linear order:
  the scores of the data model lie in \<open>[0, 1]\<close>, there is no NaN among them.
\<close>

fun argmax_loop :: "'a::linorder list \<Rightarrow> nat \<Rightarrow> 'a \<Rightarrow> nat \<Rightarrow> nat" where
  "argmax_loop [] i mp max_ind = max_ind"
| "argmax_loop (x # xs) i mp max_ind =
     (if mp < x then argmax_loop xs (Suc i) x i else argmax_loop xs (Suc i) mp max_ind)"

definition np_argmax :: "'a::linorder list \<Rightarrow> py_error + nat" where
  "np_argmax a = (case a of [] \<Rightarrow> Inl ValueError | x # xs \<Rightarrow> Inr (argmax_loop xs 1 x 0))"

text \<open>\<open>str.strip()\<close>: the ASCII white space of Python is removed at both ends.\<close>

definition is_space :: "char \<Rightarrow> bool" where
  "is_space c \<longleftrightarrow>
     c \<in> set [CHR '' '', CHR 0x09, CHR 0x0A, CHR 0x0B, CHR 0x0C, CHR 0x0D,
               CHR 0x1C, CHR 0x1D, CHR 0x1E, CHR 0x1F]"

definition strip :: "string \<Rightarrow> string" where
  "strip s = rev (dropWhile is_space (rev (dropWhile is_space s)))"

text \<open>\<open>str.lower()\<close> on ASCII: the letters A to Z move to a to z, every other character stays.\<close>

definition ascii_uppercase :: string where
  "ascii_uppercase = ''ABCDEFGHIJKLMNOPQRSTUVWXYZ''"

definition ascii_lowercase :: string where
  "ascii_lowercase = ''abcdefghijklmnopqrstuvwxyz''"

definition lower_char :: "char \<Rightarrow> char" where
  "lower_char c =
     (case map_of (zip ascii_uppercase ascii_lowercase) c of Some d \<Rightarrow> d | None \<Rightarrow> c)"

definition lower :: "string \<Rightarrow> string" where
  "lower s = map lower_char s"

text \<open>
  The label normalisation that yields \<open>acne_class_for_csv\<close> from \<open>acne_class_raw\<close>:
  lower-casing, then the chain of \<open>if\<close>/\<open>elif\<close> in the order of the source.
\<close>

definition acne_class_for_csv :: "string \<Rightarrow> string" where
  "acne_class_for_csv acne_class_raw =
     (let c = lower acne_class_raw
      in if c = ''blackheads'' then ''blackhead''
         else if c = ''whiteheads'' then ''whitehead''
         else if c = ''papules'' then ''papule''
         else if c = ''pustules'' then ''pustule''
         else if c = ''cystic'' then ''cystic''
         else if c = ''lv0'' then ''lv0''
         else c)"

text \<open>
  The values the page keeps of a classification: \<open>acne_index\<close>, \<open>acne_class_raw\<close>,
  \<open>acne_confidence\<close> and \<open>acne_class_for_csv\<close>.
\<close>

record 'a classification =
  index :: nat
  class_raw :: string
  confidence :: 'a
  class_for_csv :: string

text \<open>
  The three assignments after the prediction: \<open>acne_index\<close>, \<open>acne_class_raw\<close> and
  \<open>acne_confidence\<close>, then the normalised label. Indexing a Python list or array out of
  range raises \<open>IndexError\<close>. No comparison of the two lengths is made.
\<close>

definition classify :: "string list \<Rightarrow> 'a::linorder list \<Rightarrow> py_error + 'a classification" where
  "classify class_names acne_prediction =
     (case np_argmax acne_prediction of
        Inl e \<Rightarrow> Inl e
      | Inr acne_index \<Rightarrow>
          if \<not> acne_index < length class_names then Inl IndexError
          else if \<not> acne_index < length acne_prediction then Inl IndexError
          else
            (let acne_class_raw = strip (class_names ! acne_index);
                 acne_confidence = acne_prediction ! acne_index
             in Inr \<lparr>index = acne_index, class_raw = acne_class_raw,
                     confidence = acne_confidence,
                     class_for_csv = acne_class_for_csv acne_class_raw\<rparr>))"

text \<open>The label file of the specification's concrete scenario.\<close>

definition scenario_labels :: "string list" where
  "scenario_labels = [''blackheads'', ''whiteheads'', ''papules'', ''pustules'', ''cystic'', ''lv0'']"

text \<open>
  The prediction of the specification's concrete scenario, a prediction with two equal
  maximal scores, and a prediction for three classes.
\<close>

definition scenario_prediction :: "real list" where
  "scenario_prediction = [0.1, 0.05, 0.6, 0.1, 0.05, 0.1]"

definition tie_prediction :: "real list" where
  "tie_prediction = [0.1, 0.4, 0.4, 0.05, 0.03, 0.02]"

definition short_prediction :: "real list" where
  "short_prediction = [0.7, 0.2, 0.1]"

definition late_prediction :: "real list" where
  "late_prediction = [0.1, 0.2, 0.7]"

text \<open>Index \<open>r\<close> is the first position of \<open>ys\<close> that holds its maximum.\<close>

definition first_max :: "'a::linorder list \<Rightarrow> nat \<Rightarrow> bool" where
  "first_max ys r \<longleftrightarrow>
     r < length ys \<and> (\<forall>j<length ys. ys ! j \<le> ys ! r) \<and> (\<forall>j<r. ys ! j < ys ! r)"

subsection \<open>Progress journal\<close>

text \<open>
  A journal entry is the dictionary with the keys \<open>date\<close>, \<open>image_path\<close> and \<open>note\<close>
  (the field of the last key is \<open>note_text\<close>, since \<open>note\<close> is a keyword of the proof
  language). The state is the list \<open>journal_entries\<close> in memory, the content of the metadata file
  (\<open>None\<close> while the file does not exist) and the files of the image store, by path.
\<close>

record journal_entry =
  date :: string
  image_path :: string
  note_text :: string

record journal_state =
  journal_entries :: "journal_entry list"
  metadata_file :: "journal_entry list option"
  image_store :: "string \<rightharpoonup> string"

record uploaded_file =
  file_name :: string
  file_bytes :: string

text \<open>
  What the handlers read from outside: the two readings of the clock, formatted
  (\<open>%Y%m%d_%H%M%S\<close> for the file name, \<open>%Y-%m-%d %H:%M:%S\<close> for the date), and whether
  the operating system lets the image be written, the metadata file be written and the
  image be removed. A write that fails is the \<open>open\<close> raising \<open>OSError\<close>: the file stays as
  it was.
\<close>

record environment =
  timestamp :: string
  date_now :: string
  image_write_ok :: bool
  metadata_write_ok :: bool
  remove_ok :: bool

text \<open>
  How a handler ends: the success message of saving, the warning that no photo was given,
  an exception caught by the handler and shown with \<open>st.error\<close>, the success message of
  deleting (with whether the image was removed and the information message shown), or an
  exception that leaves the handler and is shown by the framework.
\<close>

datatype outcome = Saved | NoPhoto | SaveFailed py_error | Deleted bool | Raised py_error

definition JOURNAL_DIR :: string where
  "JOURNAL_DIR = ''progress_journal_data''"

text \<open>\<open>os.path.join\<close> of two components (POSIX).\<close>

definition os_path_join :: "string \<Rightarrow> string \<Rightarrow> string" where
  "os_path_join a b =
     (if b \<noteq> [] \<and> hd b = CHR ''/'' then b
      else if a = [] \<or> last a = CHR ''/'' then a @ b
      else a @ ''/'' @ b)"

definition load_journal_entries :: "journal_state \<Rightarrow> journal_entry list" where
  "load_journal_entries s = (case metadata_file s of Some es \<Rightarrow> es | None \<Rightarrow> [])"

definition save_journal_entries ::
  "environment \<Rightarrow> journal_entry list \<Rightarrow> journal_state \<Rightarrow> py_error + journal_state" where
  "save_journal_entries env entries s =
     (if metadata_write_ok env then Inr (s\<lparr>metadata_file := Some entries\<rparr>) else Inl OSError)"

text \<open>\<open>name.split('.')[-1]\<close>: what follows the last dot, the whole name when it has none.\<close>

definition file_extension :: "string \<Rightarrow> string" where
  "file_extension nm = rev (takeWhile (\<lambda>c. c \<noteq> CHR ''.'') (rev nm))"

definition image_filename :: "string \<Rightarrow> string \<Rightarrow> string" where
  "image_filename ts ext = ''progress_image_'' @ ts @ ''.'' @ ext"

definition new_entry :: "string \<Rightarrow> string \<Rightarrow> string \<Rightarrow> journal_entry" where
  "new_entry now fname journal_note =
     \<lparr>date = now, image_path = fname,
      note_text = (if journal_note \<noteq> [] then journal_note else ''No note.'')\<rparr>"

text \<open>
  The handler of the button "Save Progress". The image is written first, then the entry
  is appended to the list in memory, then the whole list is written to the metadata file;
  any exception is caught and reported.
\<close>

definition save_journal_button ::
  "environment \<Rightarrow> uploaded_file option \<Rightarrow> string \<Rightarrow> journal_state \<Rightarrow> journal_state \<times> outcome" where
  "save_journal_button env uploaded_journal_file journal_note s =
     (case uploaded_journal_file of
        None \<Rightarrow> (s, NoPhoto)
      | Some f \<Rightarrow>
          (let fname = image_filename (timestamp env) (file_extension (file_name f));
               path = os_path_join JOURNAL_DIR fname
           in if \<not> image_write_ok env then (s, SaveFailed OSError)
              else
                (let s1 = s\<lparr>image_store := (image_store s)(path \<mapsto> file_bytes f)\<rparr>;
                     e = new_entry (date_now env) fname journal_note;
                     s2 = s1\<lparr>journal_entries := journal_entries s1 @ [e]\<rparr>
                 in case save_journal_entries env (journal_entries s2) s2 of
                      Inl err \<Rightarrow> (s2, SaveFailed err)
                    | Inr s3 \<Rightarrow> (s3, Saved))))"

text \<open>
  \<open>sorted(journal_entries, key=lambda x: x['date'], reverse=True)\<close>. Python's sort is
  stable, and with \<open>reverse=True\<close> it keeps the original order of entries with equal keys:
  the list is reversed, sorted upwards and reversed again.
\<close>

definition sorted_entries :: "journal_entry list \<Rightarrow> journal_entry list" where
  "sorted_entries entries = rev (sort_key date (rev entries))"

text \<open>
  The handler of the button "Delete This Entry" of an entry. \<open>list.remove\<close> takes out the
  first element equal to the entry and raises \<open>ValueError\<close> when there is none. The image
  is removed only when its path exists. Nothing in this handler catches an exception.
\<close>

definition delete_journal_entry ::
  "environment \<Rightarrow> journal_entry \<Rightarrow> journal_state \<Rightarrow> journal_state \<times> outcome" where
  "delete_journal_entry env entry s =
     (if entry \<notin> set (journal_entries s) then (s, Raised ValueError)
      else
        (let s1 = s\<lparr>journal_entries := remove1 entry (journal_entries s)\<rparr>
         in case save_journal_entries env (journal_entries s1) s1 of
              Inl err \<Rightarrow> (s1, Raised err)
            | Inr s2 \<Rightarrow>
                (let full_image_path = os_path_join JOURNAL_DIR (image_path entry)
                 in if image_store s2 full_image_path \<noteq> None then
                      (if remove_ok env
                       then (s2\<lparr>image_store := (image_store s2)(full_image_path := None)\<rparr>,
                             Deleted True)
                       else (s2, Raised OSError))
                    else (s2, Deleted False))))"

text \<open>
  The start of every run of the script, \<open>journal_entries = load_journal_entries()\<close>: the
  list in memory is read from the metadata file. The history is then shown from
  \<open>sorted_entries\<close> of that list.
\<close>

definition load_at_startup :: "journal_state \<Rightarrow> journal_state" where
  "load_at_startup s = s\<lparr>journal_entries := load_journal_entries s\<rparr>"

definition list_journal :: "journal_state \<Rightarrow> journal_entry list" where
  "list_journal s = sorted_entries (journal_entries (load_at_startup s))"

text \<open>A journal with one earlier entry, an upload, and the environments of a later day.\<close>

definition earlier_entry :: journal_entry where
  "earlier_entry =
     \<lparr>date = ''2025-01-01 10:00:00'', image_path = ''progress_image_20250101_100000.jpg'',
      note_text = ''day one''\<rparr>"

definition earlier_state :: journal_state where
  "earlier_state =
     \<lparr>journal_entries = [earlier_entry],
      metadata_file = Some [earlier_entry],
      image_store =
        [''progress_journal_data/progress_image_20250101_100000.jpg'' \<mapsto> ''JPEG-1'']\<rparr>"

definition later_upload :: uploaded_file where
  "later_upload = \<lparr>file_name = ''my.face.png'', file_bytes = ''PNG-2''\<rparr>"

definition later_env :: environment where
  "later_env =
     \<lparr>timestamp = ''20250102_090000'', date_now = ''2025-01-02 09:00:00'',
      image_write_ok = True, metadata_write_ok = True, remove_ok = True\<rparr>"

definition locked_env :: environment where
  "locked_env =
     \<lparr>timestamp = ''20250103_120000'', date_now = ''2025-01-03 12:00:00'',
      image_write_ok = True, metadata_write_ok = True, remove_ok = False\<rparr>"

text \<open>
  An environment whose clock shows the second of the earlier entry, and one in which the
  image cannot be written.
\<close>

definition same_second_env :: environment where
  "same_second_env =
     \<lparr>timestamp = ''20250101_100000'', date_now = ''2025-01-01 10:00:00'',
      image_write_ok = True, metadata_write_ok = True, remove_ok = True\<rparr>"

definition read_only_env :: environment where
  "read_only_env =
     \<lparr>timestamp = ''20250102_090000'', date_now = ''2025-01-02 09:00:00'',
      image_write_ok = False, metadata_write_ok = True, remove_ok = True\<rparr>"

section \<open>Properties\<close>

subsection \<open>Helper lemmas on lists\<close>

lemma filter_filter_conj: "filter P (filter Q xs) = filter (\<lambda>x. Q x \<and> P x) xs"
  by (induction xs) auto

lemma filter_Cons_first_at:
  "filter P xs = y # ys \<Longrightarrow> \<exists>i. first_at P xs i \<and> y = xs ! i"
proof (induction xs)
  case Nil
  then show ?case by simp
next
  case (Cons x xs)
  show ?case
  proof (cases "P x")
    case True
    with Cons.prems have "y = x" by simp
    with True have "first_at P (x # xs) 0 \<and> y = (x # xs) ! 0"
      by (simp add: first_at_def)
    then show ?thesis by blast
  next
    case False
    with Cons.prems have "filter P xs = y # ys" by simp
    from Cons.IH [OF this] obtain i where i: "first_at P xs i" "y = xs ! i" by blast
    have "first_at P (x # xs) (Suc i)"
      unfolding first_at_def
    proof (intro conjI allI impI)
      show "Suc i < length (x # xs)" using i(1) by (simp add: first_at_def)
      show "P ((x # xs) ! Suc i)" using i(1) by (simp add: first_at_def)
      fix j assume "j < Suc i"
      then show "\<not> P ((x # xs) ! j)"
        using i(1) False by (cases j) (auto simp: first_at_def)
    qed
    with i(2) show ?thesis by auto
  qed
qed

lemma filter_Nil_none: "filter P xs = [] \<longleftrightarrow> (\<forall>x\<in>set xs. \<not> P x)"
  by (induction xs) auto

lemma recom_row_unfold:
  "recom_row df a k =
     (case filter (row_matches a k) df of
        r # _ \<Rightarrow> Some r
      | [] \<Rightarrow> (case filter (row_matches a ''semua'') df of r # _ \<Rightarrow> Some r | [] \<Rightarrow> None))"
  by (simp add: recom_row_def filtered_by_acne_def filtered_by_skin_def filter_filter_conj
      row_matches_def [abs_def] Let_def split: list.splits)

subsection \<open>Recommendation lookup\<close>

text \<open>
  C1. Fallback order of the lookup. For every table, acne type and mapped skin-type key:
  if some row has that acne type and that skin-type key, the result is the first such row in
  table order (so a specific row wins over an all-type row); otherwise, if some row has that
  acne type and the generic key "semua", the result is the first such row; otherwise the
  result is NotFound (\<open>None\<close>).
\<close>

theorem recom_row_fallback_order:
  "((\<exists>r\<in>set df. row_matches a k r) \<longrightarrow>
      (\<exists>i. first_at (row_matches a k) df i \<and> recom_row df a k = Some (df ! i)))
   \<and> (\<not> (\<exists>r\<in>set df. row_matches a k r) \<and> (\<exists>r\<in>set df. row_matches a ''semua'' r) \<longrightarrow>
      (\<exists>i. first_at (row_matches a ''semua'') df i \<and> recom_row df a k = Some (df ! i)))
   \<and> (\<not> (\<exists>r\<in>set df. row_matches a k r) \<and> \<not> (\<exists>r\<in>set df. row_matches a ''semua'' r) \<longrightarrow>
      recom_row df a k = None)"
proof (intro conjI impI)
  assume "\<exists>r\<in>set df. row_matches a k r"
  then have "filter (row_matches a k) df \<noteq> []"
    by (simp add: filter_Nil_none)
  then obtain y ys where f: "filter (row_matches a k) df = y # ys"
    by (cases "filter (row_matches a k) df") auto
  from filter_Cons_first_at [OF f] obtain i
    where "first_at (row_matches a k) df i" "y = df ! i" by blast
  moreover have "recom_row df a k = Some y"
    by (simp add: recom_row_unfold f)
  ultimately show "\<exists>i. first_at (row_matches a k) df i \<and> recom_row df a k = Some (df ! i)"
    by auto
next
  assume h: "\<not> (\<exists>r\<in>set df. row_matches a k r) \<and> (\<exists>r\<in>set df. row_matches a ''semua'' r)"
  then have n: "filter (row_matches a k) df = []"
    by (simp add: filter_Nil_none)
  from h have "filter (row_matches a ''semua'') df \<noteq> []"
    by (simp add: filter_Nil_none)
  then obtain y ys where f: "filter (row_matches a ''semua'') df = y # ys"
    by (cases "filter (row_matches a ''semua'') df") auto
  from filter_Cons_first_at [OF f] obtain i
    where "first_at (row_matches a ''semua'') df i" "y = df ! i" by blast
  moreover have "recom_row df a k = Some y"
    by (simp add: recom_row_unfold n f)
  ultimately show
    "\<exists>i. first_at (row_matches a ''semua'') df i \<and> recom_row df a k = Some (df ! i)"
    by auto
next
  assume h: "\<not> (\<exists>r\<in>set df. row_matches a k r) \<and> \<not> (\<exists>r\<in>set df. row_matches a ''semua'' r)"
  then have "filter (row_matches a k) df = []" "filter (row_matches a ''semua'') df = []"
    by (simp_all add: filter_Nil_none)
  then show "recom_row df a k = None"
    by (simp add: recom_row_unfold)
qed

theorem recom_row_fallback_order_witness:
  "(\<exists>r\<in>set scenario_table. row_matches ''papule'' ''oily'' r)
   \<and> (\<exists>i. first_at (row_matches ''papule'' ''oily'') scenario_table i
          \<and> recom_row scenario_table ''papule'' ''oily'' = Some (scenario_table ! i))
   \<and> \<not> (\<exists>r\<in>set scenario_table. row_matches ''pustule'' ''oily'' r)
   \<and> (\<exists>r\<in>set scenario_table. row_matches ''pustule'' ''semua'' r)
   \<and> (\<exists>i. first_at (row_matches ''pustule'' ''semua'') scenario_table i
          \<and> recom_row scenario_table ''pustule'' ''oily'' = Some (scenario_table ! i))
   \<and> \<not> (\<exists>r\<in>set scenario_table. row_matches ''cystic'' ''oily'' r)
   \<and> \<not> (\<exists>r\<in>set scenario_table. row_matches ''cystic'' ''semua'' r)
   \<and> recom_row scenario_table ''cystic'' ''oily'' = None"
proof -
  have h1: "\<exists>r\<in>set scenario_table. row_matches ''papule'' ''oily'' r"
    by (simp add: scenario_table_def row_matches_def)
  have h2: "\<not> (\<exists>r\<in>set scenario_table. row_matches ''pustule'' ''oily'' r)
      \<and> (\<exists>r\<in>set scenario_table. row_matches ''pustule'' ''semua'' r)"
    by (simp add: scenario_table_def row_matches_def)
  have h3: "\<not> (\<exists>r\<in>set scenario_table. row_matches ''cystic'' ''oily'' r)
      \<and> \<not> (\<exists>r\<in>set scenario_table. row_matches ''cystic'' ''semua'' r)"
    by (simp add: scenario_table_def row_matches_def)
  note t1 = recom_row_fallback_order [of scenario_table "''papule''" "''oily''"]
  note t2 = recom_row_fallback_order [of scenario_table "''pustule''" "''oily''"]
  note t3 = recom_row_fallback_order [of scenario_table "''cystic''" "''oily''"]
  from t1 h1 have c1: "\<exists>i. first_at (row_matches ''papule'' ''oily'') scenario_table i
          \<and> recom_row scenario_table ''papule'' ''oily'' = Some (scenario_table ! i)"
    by blast
  from t2 h2 have c2: "\<exists>i. first_at (row_matches ''pustule'' ''semua'') scenario_table i
          \<and> recom_row scenario_table ''pustule'' ''oily'' = Some (scenario_table ! i)"
    by blast
  from t3 h3 have c3: "recom_row scenario_table ''cystic'' ''oily'' = None"
    by blast
  from h1 h2 h3 c1 c2 c3 show ?thesis by blast
qed

text \<open>
  The second concrete scenario of the specification: with the oily selection the oily row
  (the second of the table) is found although the all-type row comes first, and with the
  dry selection, mapped to "semua", the all-type row.
\<close>

lemma scenario_resolve:
  "resolve scenario_table ''papule'' ''Berminyak'' = Some (scenario_table ! 1)
   \<and> resolve scenario_table ''papule'' ''Kering'' = Some (scenario_table ! 0)"
  by (simp add: resolve_def recom_row_def filtered_by_acne_def filtered_by_skin_def
      user_skin_type_csv_def dict_get_def SKIN_TYPE_MAP_TO_CSV_def scenario_table_def)

text \<open>
  C8. An acne type that does not occur in the acne-type column of the table gives NotFound
  (\<open>None\<close>), whatever the skin-type selection. The lookup has no operation that can raise:
  the dictionary is read with a default, the filters are comparisons, and the first row of a
  filter result is read only after the result was found non-empty.
\<close>

theorem resolve_unknown_acne_type:
  "acne \<notin> tingkat ` set df \<Longrightarrow> resolve df acne skin_type = None"
proof -
  assume "acne \<notin> tingkat ` set df"
  then have "filtered_by_acne df acne = []"
    by (auto simp: filtered_by_acne_def filter_Nil_none)
  then show ?thesis
    by (simp add: resolve_def recom_row_def filtered_by_skin_def)
qed

theorem resolve_unknown_acne_type_witness:
  "''cystic'' \<notin> tingkat ` set scenario_table
   \<and> resolve scenario_table ''cystic'' ''Berminyak'' = None"
proof -
  have h: "''cystic'' \<notin> tingkat ` set scenario_table"
    by (simp add: scenario_table_def)
  from resolve_unknown_acne_type [OF h] h show ?thesis by simp
qed

subsection \<open>Skin-type mapping\<close>

text \<open>
  C7. Every selection of the select box is a key of the dictionary; the oily selection
  "Berminyak" is sent to the key "oily" and every other selection to the generic key
  "semua".
\<close>

theorem skin_type_mapping:
  "\<forall>s\<in>set skin_type_options.
      map_of SKIN_TYPE_MAP_TO_CSV s = Some (if s = ''Berminyak'' then ''oily'' else ''semua'')
    \<and> user_skin_type_csv s = (if s = ''Berminyak'' then ''oily'' else ''semua'')"
  by (simp add: skin_type_options_def SKIN_TYPE_MAP_TO_CSV_def user_skin_type_csv_def
      dict_get_def)

theorem skin_type_mapping_witness:
  "''Kering'' \<in> set skin_type_options \<and> user_skin_type_csv ''Kering'' = ''semua''
   \<and> ''Berminyak'' \<in> set skin_type_options \<and> user_skin_type_csv ''Berminyak'' = ''oily''"
proof -
  have h1: "''Kering'' \<in> set skin_type_options"
    and h2: "''Berminyak'' \<in> set skin_type_options"
    by (simp_all add: skin_type_options_def)
  from skin_type_mapping h1
  have "user_skin_type_csv ''Kering'' = (if ''Kering'' = ''Berminyak'' then ''oily'' else ''semua'')"
    by blast
  moreover from skin_type_mapping h2
  have "user_skin_type_csv ''Berminyak'' =
      (if ''Berminyak'' = ''Berminyak'' then ''oily'' else ''semua'')"
    by blast
  ultimately show ?thesis using h1 h2 by simp
qed

text \<open>
  C10. The mapping is total with the default "semua": a skin-type value that is not a key of
  the dictionary (in particular one outside the select box) is sent to "semua", and the
  lookup then runs with that key as for any other selection.
\<close>

theorem skin_type_default:
  "skin_type \<notin> fst ` set SKIN_TYPE_MAP_TO_CSV \<Longrightarrow>
     user_skin_type_csv skin_type = ''semua''
     \<and> resolve df acne skin_type = recom_row df acne ''semua''"
proof -
  assume "skin_type \<notin> fst ` set SKIN_TYPE_MAP_TO_CSV"
  then have "map_of SKIN_TYPE_MAP_TO_CSV skin_type = None"
    by (simp add: map_of_eq_None_iff)
  then have "user_skin_type_csv skin_type = ''semua''"
    by (simp add: user_skin_type_csv_def dict_get_def)
  then show ?thesis
    by (simp add: resolve_def)
qed

theorem skin_type_default_witness:
  "''Berjerawat'' \<notin> fst ` set SKIN_TYPE_MAP_TO_CSV
   \<and> user_skin_type_csv ''Berjerawat'' = ''semua''
   \<and> resolve scenario_table ''papule'' ''Berjerawat''
       = recom_row scenario_table ''papule'' ''semua''"
proof -
  have h: "''Berjerawat'' \<notin> fst ` set SKIN_TYPE_MAP_TO_CSV"
    by (simp add: SKIN_TYPE_MAP_TO_CSV_def)
  from skin_type_default [OF h, of scenario_table "''papule''"] h show ?thesis by simp
qed

subsection \<open>Classification\<close>

lemmas lower_simps = lower_def lower_char_def ascii_uppercase_def ascii_lowercase_def

lemma lower_char_idem: "lower_char (lower_char c) = lower_char c"
  by (simp add: lower_simps)

lemma lower_idem: "lower (lower s) = lower s"
  by (simp add: lower_def lower_char_idem)

lemma argmax_loop_first_max:
  "length pre = i \<Longrightarrow> max_ind < i \<Longrightarrow> pre ! max_ind = mp \<Longrightarrow>
   \<forall>j<i. pre ! j \<le> mp \<Longrightarrow> \<forall>j<max_ind. pre ! j < mp \<Longrightarrow>
   first_max (pre @ xs) (argmax_loop xs i mp max_ind)"
proof (induction xs arbitrary: pre i mp max_ind)
  case Nil
  then show ?case by (simp add: first_max_def)
next
  case (Cons x xs)
  show ?case
  proof (cases "mp < x")
    case True
    have "first_max ((pre @ [x]) @ xs) (argmax_loop xs (Suc i) x i)"
    proof (rule Cons.IH)
      show "length (pre @ [x]) = Suc i" using Cons.prems(1) by simp
      show "i < Suc i" by simp
      show "(pre @ [x]) ! i = x" using Cons.prems(1) by (simp add: nth_append)
      show "\<forall>j<Suc i. (pre @ [x]) ! j \<le> x"
        using Cons.prems(1,4) True by (auto simp: nth_append less_Suc_eq)
      show "\<forall>j<i. (pre @ [x]) ! j < x"
        using Cons.prems(1,4) True by (auto simp: nth_append)
    qed
    with True show ?thesis by simp
  next
    case False
    have "first_max ((pre @ [x]) @ xs) (argmax_loop xs (Suc i) mp max_ind)"
    proof (rule Cons.IH)
      show "length (pre @ [x]) = Suc i" using Cons.prems(1) by simp
      show "max_ind < Suc i" using Cons.prems(2) by simp
      show "(pre @ [x]) ! max_ind = mp" using Cons.prems(1,2,3) by (simp add: nth_append)
      show "\<forall>j<Suc i. (pre @ [x]) ! j \<le> mp"
        using Cons.prems(1,4) False by (auto simp: nth_append less_Suc_eq)
      show "\<forall>j<max_ind. (pre @ [x]) ! j < mp"
        using Cons.prems(1,2,5) by (auto simp: nth_append)
    qed
    with False show ?thesis by simp
  qed
qed

lemma np_argmax_first_max: "np_argmax p = Inr i \<Longrightarrow> first_max p i"
proof (cases p)
  case Nil
  assume "np_argmax p = Inr i"
  with Nil show ?thesis by (simp add: np_argmax_def)
next
  case (Cons x xs)
  assume "np_argmax p = Inr i"
  with Cons have i: "i = argmax_loop xs 1 x 0" by (simp add: np_argmax_def)
  have "first_max ([x] @ xs) (argmax_loop xs 1 x 0)"
    by (rule argmax_loop_first_max) simp_all
  with i Cons show ?thesis by simp
qed

lemma np_argmax_Inl: "np_argmax p = Inl e \<longleftrightarrow> p = [] \<and> e = ValueError"
  by (cases p) (auto simp: np_argmax_def)

lemma np_argmax_nonempty: "p \<noteq> [] \<Longrightarrow> \<exists>i. np_argmax p = Inr i"
  by (cases p) (auto simp: np_argmax_def)

lemma classify_Inr:
  "classify cn p = Inr r \<longleftrightarrow>
     (\<exists>i. np_argmax p = Inr i \<and> i < length cn \<and>
        r = \<lparr>index = i, class_raw = strip (cn ! i), confidence = p ! i,
             class_for_csv = acne_class_for_csv (strip (cn ! i))\<rparr>)"
proof (cases "np_argmax p")
  case (Inl e)
  then show ?thesis by (simp add: classify_def)
next
  case (Inr i)
  then have "i < length p" using np_argmax_first_max [OF Inr] by (simp add: first_max_def)
  with Inr show ?thesis by (auto simp: classify_def Let_def)
qed

text \<open>
  C2. Whenever the classification returns, the selected index is a position of the
  prediction vector that holds its maximum, every earlier position holds a strictly smaller
  score (so of two equal maximal entries at \<open>i < j\<close> the index \<open>j\<close> is never selected), the
  reported confidence is the score at the selected index and the label is the one at that
  index. It does return for every non-empty prediction vector that is not longer than the
  label list.
\<close>

theorem classify_argmax:
  "(classify class_names acne_prediction = Inr r \<longrightarrow>
      index r < length acne_prediction
      \<and> (\<forall>j<length acne_prediction. acne_prediction ! j \<le> acne_prediction ! index r)
      \<and> (\<forall>j<index r. acne_prediction ! j < acne_prediction ! index r)
      \<and> (\<forall>i j. i < j \<and> j < length acne_prediction \<and> acne_prediction ! i = acne_prediction ! j
            \<longrightarrow> index r \<noteq> j)
      \<and> confidence r = acne_prediction ! index r
      \<and> class_raw r = strip (class_names ! index r))
   \<and> (acne_prediction \<noteq> [] \<and> length acne_prediction \<le> length class_names \<longrightarrow>
        (\<exists>r. classify class_names acne_prediction = Inr r))"
proof (intro conjI impI)
  assume c: "classify class_names acne_prediction = Inr r"
  then obtain i where i: "np_argmax acne_prediction = Inr i" "index r = i"
    "confidence r = acne_prediction ! i" "class_raw r = strip (class_names ! i)"
    by (auto simp: classify_Inr)
  from np_argmax_first_max [OF i(1)] have fm: "first_max acne_prediction (index r)"
    by (simp add: i(2))
  from fm show "index r < length acne_prediction" by (simp add: first_max_def)
  from fm show "\<forall>j<length acne_prediction. acne_prediction ! j \<le> acne_prediction ! index r"
    by (simp add: first_max_def)
  from fm show less: "\<forall>j<index r. acne_prediction ! j < acne_prediction ! index r"
    by (simp add: first_max_def)
  show "\<forall>i j. i < j \<and> j < length acne_prediction \<and> acne_prediction ! i = acne_prediction ! j
            \<longrightarrow> index r \<noteq> j"
    using less by auto
  from i show "confidence r = acne_prediction ! index r" by simp
  from i show "class_raw r = strip (class_names ! index r)" by simp
next
  assume h: "acne_prediction \<noteq> [] \<and> length acne_prediction \<le> length class_names"
  then obtain i where i: "np_argmax acne_prediction = Inr i"
    using np_argmax_nonempty by blast
  from np_argmax_first_max [OF i] have "i < length acne_prediction"
    by (simp add: first_max_def)
  with h have "i < length class_names" by simp
  with i show "\<exists>r. classify class_names acne_prediction = Inr r"
    by (simp add: classify_Inr)
qed


lemmas classify_simps = classify_def np_argmax_def scenario_labels_def strip_def is_space_def
  acne_class_for_csv_def lower_simps

theorem classify_argmax_witness:
  "classify scenario_labels tie_prediction
     = Inr \<lparr>index = 1, class_raw = ''whiteheads'', confidence = 0.4,
            class_for_csv = ''whitehead''\<rparr>
   \<and> tie_prediction ! 1 = tie_prediction ! 2
   \<and> index \<lparr>index = 1, class_raw = ''whiteheads'', confidence = 0.4 :: real,
            class_for_csv = ''whitehead''\<rparr> \<noteq> 2
   \<and> tie_prediction \<noteq> []
   \<and> length tie_prediction \<le> length scenario_labels
   \<and> (\<exists>r. classify scenario_labels tie_prediction = Inr r)"
proof -
  let ?r = "\<lparr>index = 1, class_raw = ''whiteheads'', confidence = 0.4 :: real,
            class_for_csv = ''whitehead''\<rparr>"
  have h1: "classify scenario_labels tie_prediction = Inr ?r"
    by (simp add: classify_simps tie_prediction_def)
  have h2: "tie_prediction \<noteq> [] \<and> length tie_prediction \<le> length scenario_labels"
    by (simp add: tie_prediction_def scenario_labels_def)
  have e: "(1::nat) < 2 \<and> 2 < length tie_prediction \<and> tie_prediction ! 1 = tie_prediction ! 2"
    by (simp add: tie_prediction_def)
  note t = classify_argmax [of scenario_labels tie_prediction ?r]
  from t h1 e have "index ?r \<noteq> 2" by blast
  moreover from t h2 have "\<exists>r. classify scenario_labels tie_prediction = Inr r" by blast
  ultimately show ?thesis using h1 h2 e by blast
qed

text \<open>
  The first concrete scenario of the specification: label "papule" with confidence 0.6.
\<close>

lemma scenario_classify:
  "classify scenario_labels scenario_prediction
     = Inr \<lparr>index = 2, class_raw = ''papules'', confidence = 0.6, class_for_csv = ''papule''\<rparr>"
  by (simp add: classify_simps scenario_prediction_def)

text \<open>
  C3, as stated, fails: the lengths of the label list and of the prediction vector are
  never compared. A prediction for three classes against six labels, and a prediction for
  six classes against three labels, are both classified without any error.
\<close>

theorem classify_dimension_mismatch_counterexample:
  "length short_prediction \<noteq> length scenario_labels
   \<and> classify scenario_labels short_prediction
       = Inr \<lparr>index = 0, class_raw = ''blackheads'', confidence = 0.7,
              class_for_csv = ''blackhead''\<rparr>
   \<and> length scenario_prediction \<noteq> length [''blackheads'', ''whiteheads'', ''papules'']
   \<and> classify [''blackheads'', ''whiteheads'', ''papules''] scenario_prediction
       = Inr \<lparr>index = 2, class_raw = ''papules'', confidence = 0.6,
              class_for_csv = ''papule''\<rparr>"
  by (simp add: classify_simps short_prediction_def scenario_prediction_def)

text \<open>
  C3, amended. The classification raises \<open>IndexError\<close> exactly when the arg-max index is not
  a position of the label list, which can only happen when the prediction vector is longer
  than the label list; it raises \<open>ValueError\<close> exactly when the prediction vector is empty;
  and with a non-empty prediction vector of exactly as many components as there are labels
  it returns a result.
\<close>

theorem classify_index_error:
  "(classify class_names acne_prediction = Inl IndexError \<longleftrightarrow>
      (\<exists>i. np_argmax acne_prediction = Inr i \<and> length class_names \<le> i))
   \<and> (classify class_names acne_prediction = Inl IndexError \<longrightarrow>
        length class_names < length acne_prediction)
   \<and> (classify class_names acne_prediction = Inl ValueError \<longleftrightarrow> acne_prediction = [])
   \<and> (acne_prediction \<noteq> [] \<and> length acne_prediction = length class_names \<longrightarrow>
        (\<exists>r. classify class_names acne_prediction = Inr r))"
proof (intro conjI impI)
  show ie: "classify class_names acne_prediction = Inl IndexError \<longleftrightarrow>
      (\<exists>i. np_argmax acne_prediction = Inr i \<and> length class_names \<le> i)"
  proof (cases "np_argmax acne_prediction")
    case (Inl e)
    then have "classify class_names acne_prediction = Inl e" by (simp add: classify_def)
    moreover from Inl have "e = ValueError" by (simp add: np_argmax_Inl)
    ultimately show ?thesis using Inl by simp
  next
    case (Inr i)
    then have "i < length acne_prediction"
      using np_argmax_first_max [OF Inr] by (simp add: first_max_def)
    with Inr show ?thesis by (auto simp: classify_def Let_def)
  qed
  show "classify class_names acne_prediction = Inl ValueError \<longleftrightarrow> acne_prediction = []"
  proof (cases "np_argmax acne_prediction")
    case (Inl e)
    then have "classify class_names acne_prediction = Inl e" by (simp add: classify_def)
    moreover from Inl have "e = ValueError" "acne_prediction = []"
      by (simp_all add: np_argmax_Inl)
    ultimately show ?thesis by simp
  next
    case (Inr i)
    then have "acne_prediction \<noteq> []" by (auto simp: np_argmax_def)
    with Inr show ?thesis by (auto simp: classify_def Let_def)
  qed
  {
    assume "classify class_names acne_prediction = Inl IndexError"
    with ie obtain i where i: "np_argmax acne_prediction = Inr i" "length class_names \<le> i"
      by blast
    from np_argmax_first_max [OF i(1)] have "i < length acne_prediction"
      by (simp add: first_max_def)
    with i(2) show "length class_names < length acne_prediction" by simp
  }
  {
    assume h: "acne_prediction \<noteq> [] \<and> length acne_prediction = length class_names"
    then obtain i where i: "np_argmax acne_prediction = Inr i"
      using np_argmax_nonempty by blast
    from np_argmax_first_max [OF i] have "i < length acne_prediction"
      by (simp add: first_max_def)
    with h have "i < length class_names" by simp
    with i show "\<exists>r. classify class_names acne_prediction = Inr r"
      by (simp add: classify_Inr)
  }
qed

theorem classify_index_error_witness:
  "classify [''blackheads'', ''whiteheads''] late_prediction = Inl IndexError
   \<and> length [''blackheads'', ''whiteheads''] < length late_prediction
   \<and> scenario_prediction \<noteq> []
   \<and> length scenario_prediction = length scenario_labels
   \<and> (\<exists>r. classify scenario_labels scenario_prediction = Inr r)"
proof -
  have h1: "classify [''blackheads'', ''whiteheads''] late_prediction = Inl IndexError"
    by (simp add: classify_simps late_prediction_def)
  have h2: "scenario_prediction \<noteq> [] \<and> length scenario_prediction = length scenario_labels"
    by (simp add: scenario_prediction_def scenario_labels_def)
  from classify_index_error [of "[''blackheads'', ''whiteheads'']" late_prediction] h1
  have c1: "length [''blackheads'', ''whiteheads''] < length late_prediction" by blast
  from classify_index_error [of scenario_labels scenario_prediction] h2
  have c2: "\<exists>r. classify scenario_labels scenario_prediction = Inr r" by blast
  from h1 h2 c1 c2 show ?thesis by simp
qed

text \<open>
  C6. Normalising a label twice gives the same as normalising it once. The normalisation
  lower-cases the label; the four plural forms "blackheads", "whiteheads", "papules" and
  "pustules" (in any letter case) go to their singular forms, and every other label is
  returned lower-cased and otherwise unchanged.
\<close>

theorem label_normalization_idempotent:
  "acne_class_for_csv (acne_class_for_csv x) = acne_class_for_csv x
   \<and> acne_class_for_csv ''blackheads'' = ''blackhead''
   \<and> acne_class_for_csv ''whiteheads'' = ''whitehead''
   \<and> acne_class_for_csv ''papules'' = ''papule''
   \<and> acne_class_for_csv ''pustules'' = ''pustule''
   \<and> (lower x = ''blackheads'' \<longrightarrow> acne_class_for_csv x = ''blackhead'')
   \<and> (lower x = ''whiteheads'' \<longrightarrow> acne_class_for_csv x = ''whitehead'')
   \<and> (lower x = ''papules'' \<longrightarrow> acne_class_for_csv x = ''papule'')
   \<and> (lower x = ''pustules'' \<longrightarrow> acne_class_for_csv x = ''pustule'')
   \<and> (lower x \<notin> {''blackheads'', ''whiteheads'', ''papules'', ''pustules''} \<longrightarrow>
        acne_class_for_csv x = lower x)"
proof -
  have fix4: "lower ''blackhead'' = ''blackhead''" "lower ''whitehead'' = ''whitehead''"
    "lower ''papule'' = ''papule''" "lower ''pustule'' = ''pustule''"
    "lower ''cystic'' = ''cystic''" "lower ''lv0'' = ''lv0''"
    by (simp_all add: lower_simps)
  have idem: "acne_class_for_csv (acne_class_for_csv x) = acne_class_for_csv x"
    by (simp add: acne_class_for_csv_def Let_def fix4 lower_idem)
  have known: "acne_class_for_csv ''blackheads'' = ''blackhead''"
    "acne_class_for_csv ''whiteheads'' = ''whitehead''"
    "acne_class_for_csv ''papules'' = ''papule''"
    "acne_class_for_csv ''pustules'' = ''pustule''"
    by (simp_all add: acne_class_for_csv_def lower_simps)
  have rest: "lower x = ''blackheads'' \<longrightarrow> acne_class_for_csv x = ''blackhead''"
    "lower x = ''whiteheads'' \<longrightarrow> acne_class_for_csv x = ''whitehead''"
    "lower x = ''papules'' \<longrightarrow> acne_class_for_csv x = ''papule''"
    "lower x = ''pustules'' \<longrightarrow> acne_class_for_csv x = ''pustule''"
    "lower x \<notin> {''blackheads'', ''whiteheads'', ''papules'', ''pustules''} \<longrightarrow>
        acne_class_for_csv x = lower x"
    by (simp_all add: acne_class_for_csv_def Let_def)
  from idem known rest show ?thesis by blast
qed

theorem label_normalization_idempotent_witness:
  "lower ''Pustules'' = ''pustules'' \<and> acne_class_for_csv ''Pustules'' = ''pustule''
   \<and> lower ''Cystic'' \<notin> {''blackheads'', ''whiteheads'', ''papules'', ''pustules''}
   \<and> acne_class_for_csv ''Cystic'' = ''cystic''
   \<and> acne_class_for_csv (acne_class_for_csv ''Pustules'') = acne_class_for_csv ''Pustules''"
proof -
  have h1: "lower ''Pustules'' = ''pustules''"
    by (simp add: lower_simps)
  have h2: "lower ''Cystic'' = ''cystic''"
    by (simp add: lower_simps)
  have h3: "lower ''Cystic'' \<notin> {''blackheads'', ''whiteheads'', ''papules'', ''pustules''}"
    by (simp add: h2)
  from label_normalization_idempotent [of "''Pustules''"] h1
  have c1: "acne_class_for_csv ''Pustules'' = ''pustule''"
    and c3: "acne_class_for_csv (acne_class_for_csv ''Pustules'') = acne_class_for_csv ''Pustules''"
    by blast+
  from label_normalization_idempotent [of "''Cystic''"] h3
  have c2: "acne_class_for_csv ''Cystic'' = lower ''Cystic''" by blast
  from h1 h3 c1 c2 c3 show ?thesis by (simp add: h2)
qed

subsection \<open>Progress journal\<close>

lemma save_journal_button_ok:
  "image_write_ok env \<Longrightarrow> metadata_write_ok env \<Longrightarrow>
   save_journal_button env (Some f) journal_note s =
     (let fname = image_filename (timestamp env) (file_extension (file_name f));
          es = journal_entries s @ [new_entry (date_now env) fname journal_note]
      in (s\<lparr>image_store := (image_store s)(os_path_join JOURNAL_DIR fname \<mapsto> file_bytes f),
            journal_entries := es, metadata_file := Some es\<rparr>, Saved))"
  by (simp add: save_journal_button_def save_journal_entries_def Let_def)

lemma insort_key_greatest:
  "\<forall>y\<in>set xs. f y < f x \<Longrightarrow> insort_key f x xs = xs @ [x]"
  by (induction xs) auto

lemma sorted_entries_newest:
  assumes "\<forall>x\<in>set old. date x < date e"
  shows "sorted_entries (old @ [e]) = e # sorted_entries old"
proof -
  have "insort_key date e (sort_key date (rev old)) = sort_key date (rev old) @ [e]"
    using assms by (intro insort_key_greatest) simp
  then show ?thesis by (simp add: sorted_entries_def)
qed

lemma set_sorted_entries: "set (sorted_entries es) = set es"
  by (simp add: sorted_entries_def)

lemma sorted_entries_descending:
  "sorted_wrt (\<lambda>a b. date b \<le> date a) (sorted_entries es)"
proof -
  have "sorted (map date (sort_key date (rev es)))" by simp
  then have "sorted_wrt (\<lambda>a b. date a \<le> date b) (sort_key date (rev es))"
    by (simp add: sorted_map)
  then show ?thesis by (simp add: sorted_entries_def sorted_wrt_rev)
qed


lemma delete_journal_entry_ok:
  assumes "entry \<in> set (journal_entries s)" "metadata_write_ok env"
  shows "delete_journal_entry env entry s =
     (let es = remove1 entry (journal_entries s);
          s2 = s\<lparr>journal_entries := es, metadata_file := Some es\<rparr>;
          p = os_path_join JOURNAL_DIR (image_path entry)
      in if image_store s p \<noteq> None
         then (if remove_ok env then (s2\<lparr>image_store := (image_store s)(p := None)\<rparr>, Deleted True)
               else (s2, Raised OSError))
         else (s2, Deleted False))"
  using assms by (simp add: delete_journal_entry_def save_journal_entries_def Let_def)

text \<open>
  C9. The note of a new entry is "No note." exactly when the supplied note is empty, and
  the supplied note itself otherwise. When both writes succeed, saving appends exactly one
  entry, the list in memory and the metadata file agree, and the appended entry carries
  that note.
\<close>

theorem journal_default_note:
  "note_text (new_entry now fname journal_note)
     = (if journal_note = [] then ''No note.'' else journal_note)
   \<and> (image_write_ok env \<and> metadata_write_ok env \<longrightarrow>
        (\<exists>s'. save_journal_button env (Some f) journal_note s = (s', Saved)
           \<and> journal_entries s' = journal_entries s @ [last (journal_entries s')]
           \<and> load_journal_entries s' = journal_entries s'
           \<and> note_text (last (journal_entries s'))
               = (if journal_note = [] then ''No note.'' else journal_note)))"
proof (intro conjI impI)
  show "note_text (new_entry now fname journal_note)
     = (if journal_note = [] then ''No note.'' else journal_note)"
    by (simp add: new_entry_def)
next
  assume "image_write_ok env \<and> metadata_write_ok env"
  then have ok: "image_write_ok env" "metadata_write_ok env" by simp_all
  show "\<exists>s'. save_journal_button env (Some f) journal_note s = (s', Saved)
           \<and> journal_entries s' = journal_entries s @ [last (journal_entries s')]
           \<and> load_journal_entries s' = journal_entries s'
           \<and> note_text (last (journal_entries s'))
               = (if journal_note = [] then ''No note.'' else journal_note)"
    by (simp add: save_journal_button_ok [OF ok] Let_def load_journal_entries_def new_entry_def)
qed

theorem journal_default_note_witness:
  "image_write_ok later_env \<and> metadata_write_ok later_env
   \<and> (\<exists>s'. save_journal_button later_env (Some later_upload) [] earlier_state = (s', Saved)
         \<and> journal_entries s' = journal_entries earlier_state @ [last (journal_entries s')]
         \<and> note_text (last (journal_entries s')) = ''No note.'')"
proof -
  have h: "image_write_ok later_env \<and> metadata_write_ok later_env"
    by (simp add: later_env_def)
  from journal_default_note
    [of "date_now later_env" "''x.png''" "[]" later_env later_upload earlier_state] h
  show ?thesis by auto
qed

text \<open>
  The effect of deleting an entry of the list, with a writable metadata file: the first
  occurrence of the entry is removed from the list in memory and the metadata file is
  rewritten to the remaining entries, whatever happens to the image. If the image file does
  not exist it is skipped and the handler ends with its success message; if it exists and
  can be removed it is removed; if its removal fails, the handler ends with the \<open>OSError\<close>
  leaving it, and the image stays.
\<close>

lemma delete_journal_entry_effect:
  assumes saved: "entry \<in> set (journal_entries s)"
    and writable: "metadata_write_ok env"
  shows "\<exists>s' out. delete_journal_entry env entry s = (s', out)
     \<and> journal_entries s' = remove1 entry (journal_entries s)
     \<and> metadata_file s' = Some (remove1 entry (journal_entries s))
     \<and> (image_store s (os_path_join JOURNAL_DIR (image_path entry)) = None \<longrightarrow>
          out = Deleted False \<and> image_store s' = image_store s)
     \<and> (image_store s (os_path_join JOURNAL_DIR (image_path entry)) \<noteq> None \<and> remove_ok env \<longrightarrow>
          out = Deleted True
          \<and> image_store s' = (image_store s)(os_path_join JOURNAL_DIR (image_path entry) := None))
     \<and> (image_store s (os_path_join JOURNAL_DIR (image_path entry)) \<noteq> None \<and> \<not> remove_ok env \<longrightarrow>
          out = Raised OSError \<and> image_store s' = image_store s)"
  by (simp add: delete_journal_entry_ok [OF saved writable] Let_def)


lemma delete_journal_entry_effect_example:
  "earlier_entry \<in> set (journal_entries earlier_state)
   \<and> metadata_write_ok locked_env
   \<and> image_store earlier_state (os_path_join JOURNAL_DIR (image_path earlier_entry)) \<noteq> None
   \<and> \<not> remove_ok locked_env
   \<and> (\<exists>s'. delete_journal_entry locked_env earlier_entry earlier_state = (s', Raised OSError)
         \<and> journal_entries s' = []
         \<and> metadata_file s' = Some []
         \<and> image_store s' = image_store earlier_state)
   \<and> metadata_write_ok later_env
   \<and> remove_ok later_env
   \<and> (\<exists>s'. delete_journal_entry later_env earlier_entry earlier_state = (s', Deleted True)
         \<and> journal_entries s' = []
         \<and> metadata_file s' = Some []
         \<and> image_store s' (os_path_join JOURNAL_DIR (image_path earlier_entry)) = None)"
proof -
  have h1: "earlier_entry \<in> set (journal_entries earlier_state)"
    by (simp add: earlier_state_def)
  have h2: "metadata_write_ok locked_env" "\<not> remove_ok locked_env"
    by (simp_all add: locked_env_def)
  have h3: "metadata_write_ok later_env" "remove_ok later_env"
    by (simp_all add: later_env_def)
  have h4: "image_store earlier_state (os_path_join JOURNAL_DIR (image_path earlier_entry)) \<noteq> None"
    by (simp add: earlier_state_def earlier_entry_def os_path_join_def JOURNAL_DIR_def)
  have r: "remove1 earlier_entry (journal_entries earlier_state) = []"
    by (simp add: earlier_state_def)
  from delete_journal_entry_effect [OF h1 h2(1)] h2(2) h4 r
  have c1: "\<exists>s'. delete_journal_entry locked_env earlier_entry earlier_state = (s', Raised OSError)
         \<and> journal_entries s' = []
         \<and> metadata_file s' = Some []
         \<and> image_store s' = image_store earlier_state"
    by auto
  from delete_journal_entry_effect [OF h1 h3(1)] h3(2) h4 r
  have c2: "\<exists>s'. delete_journal_entry later_env earlier_entry earlier_state = (s', Deleted True)
         \<and> journal_entries s' = []
         \<and> metadata_file s' = Some []
         \<and> image_store s' (os_path_join JOURNAL_DIR (image_path earlier_entry)) = None"
    by auto
  from h1 h2 h3 h4 c1 c2 show ?thesis by blast
qed

text \<open>
  C4. Deleting an entry should remove it from the list, rewrite the metadata file and
  treat a failure to delete the image as non-fatal, merely reporting it. The code departs
  from this when the removal of an existing image file fails: the entry is removed from
  the list and the metadata file is rewritten, but the \<open>OSError\<close> of \<open>os.remove\<close> is not
  caught. It leaves the handler, so the success message and the rerun are never reached,
  and the handler itself reports nothing.
\<close>

theorem delete_journal_entry_remove_failure:
  "delete_journal_entry locked_env earlier_entry earlier_state
     = (earlier_state\<lparr>journal_entries := [], metadata_file := Some []\<rparr>, Raised OSError)"
  by (simp add: delete_journal_entry_def save_journal_entries_def locked_env_def
      earlier_state_def earlier_entry_def os_path_join_def JOURNAL_DIR_def)

text \<open>
  The handler of saving, by contrast, catches the failure of its write and reports it:
  it ends with the error message and the journal is as before.
\<close>

lemma save_journal_button_write_failure:
  "save_journal_button read_only_env (Some later_upload) journal_note earlier_state
     = (earlier_state, SaveFailed OSError)"
  by (simp add: save_journal_button_def read_only_env_def Let_def)

text \<open>
  C5, as stated, fails: dates have a resolution of one second and the sort keeps the order
  of entries with equal dates. An entry saved in the second of the earlier entry is listed
  after it, not as the newest.
\<close>

theorem journal_same_second_counterexample:
  "snd (save_journal_button same_second_env (Some later_upload) ''again'' earlier_state) = Saved
   \<and> map note_text
        (list_journal
          (fst (save_journal_button same_second_env (Some later_upload) ''again'' earlier_state)))
       = [''day one'', ''again'']
   \<and> map date
        (list_journal
          (fst (save_journal_button same_second_env (Some later_upload) ''again'' earlier_state)))
       = [''2025-01-01 10:00:00'', ''2025-01-01 10:00:00'']"
  by (simp add: save_journal_button_def save_journal_entries_def new_entry_def
      list_journal_def load_at_startup_def load_journal_entries_def sorted_entries_def
      same_second_env_def earlier_state_def earlier_entry_def Let_def)

text \<open>
  C5, amended. Round trip of the journal. Assume both writes of the saving succeed, the
  clock reading of the saving is later than the date of every entry already in the list,
  and the deletion can write the metadata file and remove the image. Then saving an image
  with a note succeeds; the history read back from the metadata file is sorted by date
  descending and starts with the new entry, followed by the earlier history; the new entry
  carries the date of the saving, the file name built from the time stamp and the
  extension of the upload, and the note (the default when the note is empty); its image
  file holds the uploaded bytes. Deleting that entry afterwards succeeds, the entry is no
  longer in the history, which is the earlier history again, and its image file is gone.
\<close>

theorem journal_round_trip:
  assumes img: "image_write_ok env"
    and meta: "metadata_write_ok env"
    and clock: "\<forall>x\<in>set (journal_entries s). date x < date_now env"
    and meta': "metadata_write_ok env'"
    and rm: "remove_ok env'"
  shows "\<exists>s1 e. save_journal_button env (Some f) journal_note s = (s1, Saved)
     \<and> list_journal s1 = e # sorted_entries (journal_entries s)
     \<and> sorted_wrt (\<lambda>a b. date b \<le> date a) (list_journal s1)
     \<and> date e = date_now env
     \<and> image_path e = image_filename (timestamp env) (file_extension (file_name f))
     \<and> note_text e = (if journal_note = [] then ''No note.'' else journal_note)
     \<and> image_store s1 (os_path_join JOURNAL_DIR (image_path e)) = Some (file_bytes f)
     \<and> (\<exists>s2. delete_journal_entry env' e (load_at_startup s1) = (s2, Deleted True)
           \<and> e \<notin> set (list_journal s2)
           \<and> list_journal s2 = sorted_entries (journal_entries s)
           \<and> image_store s2 (os_path_join JOURNAL_DIR (image_path e)) = None)"
proof -
  define fname where "fname = image_filename (timestamp env) (file_extension (file_name f))"
  define e where "e = new_entry (date_now env) fname journal_note"
  define p where "p = os_path_join JOURNAL_DIR fname"
  define s1 where "s1 = s\<lparr>image_store := (image_store s)(p \<mapsto> file_bytes f),
      journal_entries := journal_entries s @ [e], metadata_file := Some (journal_entries s @ [e])\<rparr>"
  have save: "save_journal_button env (Some f) journal_note s = (s1, Saved)"
    by (simp add: save_journal_button_ok [OF img meta] Let_def s1_def e_def p_def fname_def)
  have start: "load_at_startup s1 = s1"
    by (simp add: load_at_startup_def load_journal_entries_def s1_def)
  have date_e: "date e = date_now env" and path_e: "image_path e = fname"
    by (simp_all add: e_def new_entry_def)
  have older: "\<forall>x\<in>set (journal_entries s). date x < date e"
    using clock by (simp add: date_e)
  have fresh: "e \<notin> set (journal_entries s)"
    using older by auto
  have lst: "list_journal s1 = e # sorted_entries (journal_entries s)"
  proof -
    have "journal_entries (load_at_startup s1) = journal_entries s @ [e]"
      by (simp add: start) (simp add: s1_def)
    then show ?thesis
      by (simp add: list_journal_def sorted_entries_newest [OF older])
  qed
  have desc: "sorted_wrt (\<lambda>a b. date b \<le> date a) (list_journal s1)"
    by (simp add: list_journal_def sorted_entries_descending)
  have nt: "note_text e = (if journal_note = [] then ''No note.'' else journal_note)"
    by (simp add: e_def new_entry_def)
  have stored: "image_store s1 (os_path_join JOURNAL_DIR (image_path e)) = Some (file_bytes f)"
    by (simp add: s1_def path_e p_def)
  have mem: "e \<in> set (journal_entries s1)"
    by (simp add: s1_def)
  have rest: "remove1 e (journal_entries s1) = journal_entries s"
    using fresh by (simp add: s1_def remove1_append)
  define s2 where "s2 = s1\<lparr>journal_entries := journal_entries s, metadata_file := Some (journal_entries s),
      image_store := (image_store s1)(p := None)\<rparr>"
  have del: "delete_journal_entry env' e (load_at_startup s1) = (s2, Deleted True)"
    using rm stored
    by (simp add: start delete_journal_entry_ok [OF mem meta'] Let_def rest s2_def path_e p_def)
  have lst2: "list_journal s2 = sorted_entries (journal_entries s)"
    by (simp add: list_journal_def load_at_startup_def load_journal_entries_def s2_def)
  have gone: "e \<notin> set (list_journal s2)"
    using fresh by (simp add: lst2 set_sorted_entries)
  have removed: "image_store s2 (os_path_join JOURNAL_DIR (image_path e)) = None"
    by (simp add: s2_def path_e p_def)
  have path_e': "image_path e = image_filename (timestamp env) (file_extension (file_name f))"
    by (simp add: path_e fname_def)
  from save lst desc date_e path_e' nt stored del gone lst2 removed show ?thesis by blast
qed


theorem journal_round_trip_witness:
  "image_write_ok later_env \<and> metadata_write_ok later_env \<and> remove_ok later_env
   \<and> list_all (\<lambda>x. date x < date_now later_env) (journal_entries earlier_state)
   \<and> (\<exists>s1 e. save_journal_button later_env (Some later_upload) ''note'' earlier_state = (s1, Saved)
         \<and> list_journal s1 = [e, earlier_entry]
         \<and> date e = ''2025-01-02 09:00:00''
         \<and> image_path e = ''progress_image_20250102_090000.png''
         \<and> note_text e = ''note''
         \<and> image_store s1 (os_path_join JOURNAL_DIR (image_path e)) = Some ''PNG-2''
         \<and> (\<exists>s2. delete_journal_entry later_env e (load_at_startup s1) = (s2, Deleted True)
               \<and> e \<notin> set (list_journal s2)
               \<and> list_journal s2 = [earlier_entry]
               \<and> image_store s2 (os_path_join JOURNAL_DIR (image_path e)) = None))"
proof -
  have h1: "image_write_ok later_env" and h2: "metadata_write_ok later_env"
    and h3: "remove_ok later_env"
    by (simp_all add: later_env_def)
  have h4: "\<forall>x\<in>set (journal_entries earlier_state). date x < date_now later_env"
    by (simp add: earlier_state_def earlier_entry_def later_env_def)
  have old: "sorted_entries (journal_entries earlier_state) = [earlier_entry]"
    by (simp add: sorted_entries_def earlier_state_def)
  have v: "date_now later_env = ''2025-01-02 09:00:00''"
    "image_filename (timestamp later_env) (file_extension (file_name later_upload))
       = ''progress_image_20250102_090000.png''"
    "file_bytes later_upload = ''PNG-2''"
    by (simp_all add: later_env_def later_upload_def image_filename_def file_extension_def)
  from journal_round_trip [OF h1 h2 h4 h2 h3, of later_upload "''note''"]
  have "\<exists>s1 e. save_journal_button later_env (Some later_upload) ''note'' earlier_state = (s1, Saved)
         \<and> list_journal s1 = [e, earlier_entry]
         \<and> date e = ''2025-01-02 09:00:00''
         \<and> image_path e = ''progress_image_20250102_090000.png''
         \<and> note_text e = ''note''
         \<and> image_store s1 (os_path_join JOURNAL_DIR (image_path e)) = Some ''PNG-2''
         \<and> (\<exists>s2. delete_journal_entry later_env e (load_at_startup s1) = (s2, Deleted True)
               \<and> e \<notin> set (list_journal s2)
               \<and> list_journal s2 = [earlier_entry]
               \<and> image_store s2 (os_path_join JOURNAL_DIR (image_path e)) = None)"
    unfolding old v by simp blast
  with h1 h2 h3 h4 show ?thesis by (simp add: list_all_iff)
qed

text \<open>
  At the boundary of the clock assumption: an entry saved in the same second as the
  previous one is listed after it, since the sort keeps the order of equal dates; and of
  two equal entries the deletion removes one and the image file both refer to.
\<close>

lemma sorted_entries_same_date:
  "date a = date b \<Longrightarrow> sorted_entries [a, b] = [a, b]"
  by (simp add: sorted_entries_def)

lemma delete_journal_entry_duplicate:
  "delete_journal_entry later_env earlier_entry
     (earlier_state\<lparr>journal_entries := [earlier_entry, earlier_entry]\<rparr>)
   = (earlier_state\<lparr>journal_entries := [earlier_entry], metadata_file := Some [earlier_entry],
        image_store := Map.empty\<rparr>, Deleted True)"
  by (simp add: delete_journal_entry_def save_journal_entries_def later_env_def
      earlier_state_def earlier_entry_def os_path_join_def JOURNAL_DIR_def)

end
